theory Spec2Isabelle
  imports Complex_Main
begin

section \<open>Numbers and their rendering\<close>

text \<open>
  The program computes with JavaScript Numbers, the binary64 values of IEEE 754. A Number
  is modelled as the real number it denotes, and an arithmetic operation of the source as
  the exact operation followed by \<open>round_double\<close>, the rounding to the nearest binary64
  value (ties to the even significand). \<open>Math.floor\<close> and \<open>%\<close> are exact on Numbers.
  Results beyond the largest finite Number are not modelled: no reading the program can
  receive produces one.

  \<open>formatUptime\<close> is written with exact division; the rounded operators are those of the
  statistics.
\<close>

definition digit_char :: "nat \<Rightarrow> char" where
  "digit_char d = char_of (48 + d)"

text \<open>The decimal digits of a natural number, most significant first.\<close>

fun decimal :: "nat \<Rightarrow> string" where
  "decimal n = (if n < 10 then [digit_char n] else decimal (n div 10) @ [digit_char (n mod 10)])"

declare decimal.simps [simp del]

text \<open>
  The string a template literal \<open>`${n}`\<close> inserts for an integral Number (below \<open>10^21\<close> in
  magnitude, where JavaScript still prints every digit).
\<close>

definition number_to_string :: "int \<Rightarrow> string" where
  "number_to_string i = (if i < 0 then ''-'' @ decimal (nat (- i)) else decimal (nat i))"

text \<open>The \<open>%\<close> operator of JavaScript: the remainder takes the sign of the dividend.\<close>

definition js_trunc :: "real \<Rightarrow> int" where
  "js_trunc x = (if x < 0 then \<lceil>x\<rceil> else \<lfloor>x\<rfloor>)"

definition js_rem :: "real \<Rightarrow> real \<Rightarrow> real" where
  "js_rem a b = a - b * of_int (js_trunc (a / b))"

text \<open>
  \<open>Number.prototype.toFixed(1)\<close>: the integer \<open>n\<close> nearest to \<open>10 * x\<close> (the larger one on a
  tie), printed with one digit after the point; a negative argument gets a leading minus sign.
\<close>

definition toFixed1 :: "real \<Rightarrow> string" where
  "toFixed1 x =
     (let n = nat \<lfloor>\<bar>x\<bar> * 10 + 1 / 2\<rfloor>
      in (if x < 0 then ''-'' else '''') @ decimal (n div 10) @ ''.'' @ decimal (n mod 10))"

subsection \<open>Rounding to binary64\<close>

definition pow2 :: "int \<Rightarrow> real" where
  "pow2 e = (if 0 \<le> e then 2 ^ nat e else 1 / 2 ^ nat (- e))"

text \<open>
  The binary exponent of a positive real, \<open>\<lfloor>log\<^sub>2 x\<rfloor>\<close>, by halving from above one and by
  doubling from below one.
\<close>

function exponent_up :: "real \<Rightarrow> int" where
  "exponent_up x = (if 2 \<le> x then exponent_up (x / 2) + 1 else 0)"
  by pat_completeness auto
termination
proof (relation "measure (\<lambda>x. nat \<lfloor>x\<rfloor>)")
  show "wf (measure (\<lambda>x::real. nat \<lfloor>x\<rfloor>))"
    by simp
next
  fix x :: real
  assume "2 \<le> x"
  then have "\<lfloor>x / 2\<rfloor> < \<lfloor>x\<rfloor>" "0 < \<lfloor>x\<rfloor>"
    by linarith+
  then show "(x / 2, x) \<in> measure (\<lambda>x. nat \<lfloor>x\<rfloor>)"
    by simp
qed

function exponent_down :: "real \<Rightarrow> int" where
  "exponent_down x = (if 0 < x \<and> x < 1 then exponent_down (x * 2) - 1 else 0)"
  by pat_completeness auto
termination
proof (relation "measure (\<lambda>x. nat \<lceil>1 / x\<rceil>)")
  show "wf (measure (\<lambda>x::real. nat \<lceil>1 / x\<rceil>))"
    by simp
next
  fix x :: real
  assume a: "0 < x \<and> x < 1"
  then have "1 < 1 / x"
    by simp
  then have c: "2 \<le> \<lceil>1 / x\<rceil>"
    by linarith
  have "1 / (x * 2) = (1 / x) / 2"
    by simp
  also have "\<dots> \<le> of_int \<lceil>1 / x\<rceil> / 2"
    by (simp add: divide_right_mono)
  also have "\<dots> \<le> of_int (\<lceil>1 / x\<rceil> - 1)"
    using c by simp
  finally have "\<lceil>1 / (x * 2)\<rceil> \<le> \<lceil>1 / x\<rceil> - 1"
    by (simp only: ceiling_le_iff)
  then show "(x * 2, x) \<in> measure (\<lambda>x. nat \<lceil>1 / x\<rceil>)"
    using a c by simp
qed

declare exponent_up.simps [simp del] exponent_down.simps [simp del]

definition exponent :: "real \<Rightarrow> int" where
  "exponent x = (if 1 \<le> x then exponent_up x else exponent_down x)"

text \<open>The nearest integer, the even one of the two on a tie.\<close>

definition round_half_even :: "real \<Rightarrow> int" where
  "round_half_even x =
     (let f = \<lfloor>x\<rfloor>; d = x - of_int f
      in if d < 1 / 2 then f else if 1 / 2 < d then f + 1 else if even f then f else f + 1)"

text \<open>
  The spacing of binary64 values around \<open>x\<close>: 53 significant bits, and the fixed spacing
  \<open>2^-1074\<close> of the subnormal range below \<open>2^-1022\<close>.
\<close>

definition binade :: "real \<Rightarrow> int" where
  "binade x = max (exponent \<bar>x\<bar>) (- 1022)"

definition ulp :: "real \<Rightarrow> real" where
  "ulp x = pow2 (binade x - 52)"

definition round_double :: "real \<Rightarrow> real" where
  "round_double x = (if x = 0 then 0 else of_int (round_half_even (x / ulp x)) * ulp x)"

text \<open>The reals that are binary64 values.\<close>

definition is_double :: "real \<Rightarrow> bool" where
  "is_double x = (round_double x = x)"

text \<open>The operators \<open>*\<close>, \<open>/\<close>, \<open>+\<close> and \<open>-\<close> of the source, on Numbers.\<close>

definition js_mul :: "real \<Rightarrow> real \<Rightarrow> real" where
  "js_mul a b = round_double (a * b)"

definition js_div :: "real \<Rightarrow> real \<Rightarrow> real" where
  "js_div a b = round_double (a / b)"

definition js_add :: "real \<Rightarrow> real \<Rightarrow> real" where
  "js_add a b = round_double (a + b)"

definition js_sub :: "real \<Rightarrow> real \<Rightarrow> real" where
  "js_sub a b = round_double (a - b)"

section \<open>Uptime formatting\<close>

text \<open>\<open>formatUptime(seconds)\<close> of \<open>index.js\<close>.\<close>

definition formatUptime :: "real \<Rightarrow> string" where
  "formatUptime seconds =
     (let days = \<lfloor>seconds / (3600 * 24)\<rfloor>;
          hours = \<lfloor>js_rem seconds (3600 * 24) / 3600\<rfloor>;
          minutes = \<lfloor>js_rem seconds 3600 / 60\<rfloor>;
          result = '''';
          result = (if days > 0
                    then result @ number_to_string days @ '' day''
                           @ (if days > 1 then ''s'' else '''') @ '', ''
                    else result);
          result = (if hours > 0
                    then result @ number_to_string hours @ '' hour''
                           @ (if hours > 1 then ''s'' else '''') @ '', ''
                    else result);
          result = result @ number_to_string minutes @ '' minute''
                     @ (if minutes > 1 then ''s'' else '''')
      in result)"

subsection \<open>The humanization of the specification\<close>

text \<open>
  The specification's own description, kept apart from the code's: the modulus is the
  mathematical one, \<open>x - m * \<lfloor>x / m\<rfloor>\<close>, and a clause is the count, the unit word and the
  suffix \<open>s\<close> exactly when the count exceeds one.
\<close>

definition spec_mod :: "real \<Rightarrow> real \<Rightarrow> real" where
  "spec_mod x m = x - m * of_int \<lfloor>x / m\<rfloor>"

definition spec_clause :: "int \<Rightarrow> string \<Rightarrow> string" where
  "spec_clause n unit_word = number_to_string n @ '' '' @ unit_word @ (if n > 1 then ''s'' else '''')"

definition spec_humanize :: "real \<Rightarrow> string" where
  "spec_humanize seconds =
     (let days = \<lfloor>seconds / 86400\<rfloor>;
          hours = \<lfloor>spec_mod seconds 86400 / 3600\<rfloor>;
          minutes = \<lfloor>spec_mod seconds 3600 / 60\<rfloor>
      in (if days > 0 then spec_clause days ''day'' @ '', '' else '''')
         @ (if hours > 0 then spec_clause hours ''hour'' @ '', '' else '''')
         @ spec_clause minutes ''minute'')"

section \<open>Requests, responses and the process environment\<close>

datatype json =
    JNull
  | JBool bool
  | JNum real
  | JStr string
  | JObj "(string \<times> json) list"

datatype http_method = GET | HEAD | POST | PUT | DELETE | PATCH | OPTIONS

text \<open>An error object passed to \<open>next(err)\<close>: its \<open>message\<close> and its \<open>status\<close>, if it has one.\<close>

record failure =
  err_message :: string
  err_status :: "nat option"

text \<open>
  What the body parsers make of a request. The content type selects the parser
  (\<open>express.json()\<close> for a JSON content type, \<open>express.urlencoded()\<close> for a form), and the
  parser either yields a value or raises.
\<close>

datatype payload =
    NoBody
  | JsonBody "failure + json"
  | UrlencodedBody "failure + json"
  | OtherBody

record request =
  req_method :: http_method
  req_path :: string
  req_body :: payload

datatype content = Json json | File string | NoContent | DefaultPage

text \<open>
  A response: the status, the body the handler hands to \<open>res.json\<close> or \<open>res.sendFile\<close>, and
  the delay of the timer that sends it, in milliseconds.
\<close>

record response =
  status :: nat
  content :: content
  delay_ms :: nat

text \<open>
  What one request reads from the outside world in \<open>/api/stats\<close> and \<open>/api/health\<close>, one
  field for each call in the order the source makes them: \<open>Math.random()\<close>,
  \<open>os.totalmem()\<close>, \<open>os.freemem()\<close>, \<open>process.uptime()\<close>, \<open>os.uptime()\<close>, and
  \<open>new Date()\<close> as its ISO rendering in the JSON body.
\<close>

record readings =
  rand_cpu :: real
  totalmem_total :: real
  freemem_free :: real
  freemem_usage :: real
  totalmem_usage :: real
  rand_used :: real
  rand_free :: real
  rand_traffic :: real
  process_uptime :: real
  os_uptime :: real
  now :: string

text \<open>
  The process environment: the variable \<open>NODE_ENV\<close>, the files \<open>express.static\<close> finds under
  \<open>public/\<close> for a request path, the result of sending \<open>public/index.html\<close>, and the
  readings.
\<close>

record env =
  NODE_ENV :: "string option"
  static_file :: "string \<Rightarrow> string option"
  index_html :: "failure + string"
  obs :: readings

section \<open>The middleware stack\<close>

text \<open>
  A layer either ends the request with a response, calls \<open>next()\<close>, or calls \<open>next(err)\<close>.
\<close>

datatype outcome = Done response | Next | NextErr failure

datatype layer =
    Use "env \<Rightarrow> request \<Rightarrow> outcome"
  | UseError "env \<Rightarrow> failure \<Rightarrow> request \<Rightarrow> outcome"

text \<open>
  When no layer is left, the framework's final handler answers: 404 without an error, the
  error's own status (if it is an error status) or 500 with one.
\<close>

definition finalhandler :: "failure option \<Rightarrow> response" where
  "finalhandler pending =
     (case pending of
        None \<Rightarrow> \<lparr>status = 404, content = DefaultPage, delay_ms = 0\<rparr>
      | Some err \<Rightarrow>
          \<lparr>status = (case err_status err of
                        Some c \<Rightarrow> if 400 \<le> c \<and> c < 600 then c else 500
                      | None \<Rightarrow> 500),
            content = DefaultPage, delay_ms = 0\<rparr>)"

text \<open>
  The router walks the layers in the order of registration. Without a pending error it
  runs the ordinary layers and skips the error-handling ones (those of four arguments);
  with a pending error it skips the ordinary layers and runs the next error-handling one.
\<close>

fun dispatch :: "layer list \<Rightarrow> env \<Rightarrow> failure option \<Rightarrow> request \<Rightarrow> response" where
  "dispatch [] e pending req = finalhandler pending"
| "dispatch (Use h # ls) e None req =
     (case h e req of
        Done r \<Rightarrow> r
      | Next \<Rightarrow> dispatch ls e None req
      | NextErr err \<Rightarrow> dispatch ls e (Some err) req)"
| "dispatch (Use h # ls) e (Some err) req = dispatch ls e (Some err) req"
| "dispatch (UseError h # ls) e None req = dispatch ls e None req"
| "dispatch (UseError h # ls) e (Some err) req =
     (case h e err req of
        Done r \<Rightarrow> r
      | Next \<Rightarrow> dispatch ls e None req
      | NextErr err' \<Rightarrow> dispatch ls e (Some err') req)"

subsection \<open>Route matching\<close>

text \<open>
  Routes are matched as the framework does by default: letters without regard to case, and
  with an optional trailing slash.
\<close>

definition lower_char :: "char \<Rightarrow> char" where
  "lower_char c =
     (if 65 \<le> (of_char c :: nat) \<and> (of_char c :: nat) \<le> 90 then char_of (of_char c + 32 :: nat) else c)"

definition strip_slash :: "string \<Rightarrow> string" where
  "strip_slash p = (if p \<noteq> [] \<and> last p = CHR ''/'' then butlast p else p)"

definition route_match :: "string \<Rightarrow> string \<Rightarrow> bool" where
  "route_match pattern p =
     (let base = map lower_char (strip_slash pattern); q = map lower_char p
      in q = base \<or> q = base @ ''/'')"

text \<open>A route registered with \<open>app.get\<close> also answers \<open>HEAD\<close>.\<close>

definition method_match :: "http_method \<Rightarrow> http_method \<Rightarrow> bool" where
  "method_match registered m = (m = registered \<or> (registered = GET \<and> m = HEAD))"

definition route ::
  "http_method \<Rightarrow> string \<Rightarrow> (env \<Rightarrow> request \<Rightarrow> outcome) \<Rightarrow> env \<Rightarrow> request \<Rightarrow> outcome" where
  "route m pattern h e req =
     (if method_match m (req_method req) \<and> route_match pattern (req_path req)
      then h e req else Next)"

subsection \<open>Library middleware\<close>

text \<open>
  \<open>morgan\<close>, \<open>helmet\<close> and \<open>compression\<close> log, set headers and wrap the output stream; they
  always pass the request on.
\<close>

definition morgan :: "env \<Rightarrow> request \<Rightarrow> outcome" where
  "morgan e req = Next"

definition helmet :: "env \<Rightarrow> request \<Rightarrow> outcome" where
  "helmet e req = Next"

definition compression :: "env \<Rightarrow> request \<Rightarrow> outcome" where
  "compression e req = Next"

text \<open>
  \<open>cors()\<close> with its defaults answers every \<open>OPTIONS\<close> request itself, with status 204 and
  an empty body, and passes every other request on.
\<close>

definition cors :: "env \<Rightarrow> request \<Rightarrow> outcome" where
  "cors e req =
     (if req_method req = OPTIONS
      then Done \<lparr>status = 204, content = NoContent, delay_ms = 0\<rparr>
      else Next)"

definition express_json :: "env \<Rightarrow> request \<Rightarrow> outcome" where
  "express_json e req =
     (case req_body req of JsonBody (Inl err) \<Rightarrow> NextErr err | _ \<Rightarrow> Next)"

definition express_urlencoded :: "env \<Rightarrow> request \<Rightarrow> outcome" where
  "express_urlencoded e req =
     (case req_body req of UrlencodedBody (Inl err) \<Rightarrow> NextErr err | _ \<Rightarrow> Next)"

text \<open>\<open>express.static\<close> serves \<open>GET\<close> and \<open>HEAD\<close> only and falls through when it finds no file.\<close>

definition express_static :: "env \<Rightarrow> request \<Rightarrow> outcome" where
  "express_static e req =
     (if req_method req = GET \<or> req_method req = HEAD
      then (case static_file e (req_path req) of
              Some f \<Rightarrow> Done \<lparr>status = 200, content = File f, delay_ms = 0\<rparr>
            | None \<Rightarrow> Next)
      else Next)"

subsection \<open>The handlers of \<open>index.js\<close>\<close>

definition home :: "env \<Rightarrow> request \<Rightarrow> outcome" where
  "home e req =
     (case index_html e of
        Inr f \<Rightarrow> Done \<lparr>status = 200, content = File f, delay_ms = 0\<rparr>
      | Inl err \<Rightarrow> NextErr err)"

definition health :: "env \<Rightarrow> request \<Rightarrow> outcome" where
  "health e req =
     Done \<lparr>status = 200,
           content = Json (JObj [(''status'', JStr ''OK''),
                                 (''timestamp'', JStr (now (obs e))),
                                 (''uptime'', JNum (process_uptime (obs e)))]),
           delay_ms = 0\<rparr>"

text \<open>
  The statistics object, every operator of lines 72 to 87 rounding as the source does. A
  Number that is not finite (here: a division by a total of zero) is \<open>null\<close> in the JSON
  body.
\<close>

definition stats :: "readings \<Rightarrow> json" where
  "stats r =
     JObj [
       (''cpu'', JObj [
          (''usage'', JNum (of_int \<lfloor>js_mul (rand_cpu r) 100\<rfloor>))]),
       (''memory'', JObj [
          (''total'', JNum (of_int \<lfloor>js_div (js_div (totalmem_total r) 1024) 1024\<rfloor>)),
          (''free'', JNum (of_int \<lfloor>js_div (js_div (freemem_free r) 1024) 1024\<rfloor>)),
          (''usage'', if totalmem_usage r = 0 then JNull
                      else JNum (of_int \<lfloor>js_mul (js_sub 1 (js_div (freemem_usage r)
                                                                   (totalmem_usage r))) 100\<rfloor>))]),
       (''disk'', JObj [
          (''total'', JNum 500),
          (''used'', JNum (of_int \<lfloor>js_add (js_mul (rand_used r) 200) 100\<rfloor>)),
          (''free'', JNum (of_int \<lfloor>js_add (js_mul (rand_free r) 200) 100\<rfloor>))]),
       (''network'', JObj [
          (''traffic'', JStr (toFixed1 (js_mul (rand_traffic r) 10)))]),
       (''uptime'', JObj [
          (''server'', JStr (formatUptime (process_uptime r))),
          (''system'', JStr (formatUptime (os_uptime r)))])]"

definition get_stats :: "env \<Rightarrow> request \<Rightarrow> outcome" where
  "get_stats e req = Done \<lparr>status = 200, content = Json (stats (obs e)), delay_ms = 0\<rparr>"

definition control_start :: "env \<Rightarrow> request \<Rightarrow> outcome" where
  "control_start e req =
     Done \<lparr>status = 200,
           content = Json (JObj [(''success'', JBool True),
                                 (''message'', JStr ''Server started successfully''),
                                 (''timestamp'', JStr (now (obs e)))]),
           delay_ms = 1000\<rparr>"

definition control_stop :: "env \<Rightarrow> request \<Rightarrow> outcome" where
  "control_stop e req =
     Done \<lparr>status = 200,
           content = Json (JObj [(''success'', JBool True),
                                 (''message'', JStr ''Server stopped successfully''),
                                 (''timestamp'', JStr (now (obs e)))]),
           delay_ms = 1000\<rparr>"

definition control_restart :: "env \<Rightarrow> request \<Rightarrow> outcome" where
  "control_restart e req =
     Done \<lparr>status = 200,
           content = Json (JObj [(''success'', JBool True),
                                 (''message'', JStr ''Server restarted successfully''),
                                 (''timestamp'', JStr (now (obs e)))]),
           delay_ms = 2000\<rparr>"

definition error_handler :: "env \<Rightarrow> failure \<Rightarrow> request \<Rightarrow> outcome" where
  "error_handler e err req =
     Done \<lparr>status = 500,
           content = Json (JObj [(''error'', JStr ''Something went wrong!''),
                                 (''message'', JStr (if NODE_ENV e = Some ''production''
                                                     then ''Server error'' else err_message err))]),
           delay_ms = 0\<rparr>"

definition not_found_handler :: "env \<Rightarrow> request \<Rightarrow> outcome" where
  "not_found_handler e req =
     Done \<lparr>status = 404,
           content = Json (JObj [(''error'', JStr ''Not Found''),
                                 (''message'', JStr (''The requested resource at '' @ req_path req
                                                     @ '' was not found''))]),
           delay_ms = 0\<rparr>"

subsection \<open>The application\<close>

definition app_layers :: "layer list" where
  "app_layers =
     [Use morgan,
      Use helmet,
      Use cors,
      Use express_json,
      Use express_urlencoded,
      Use compression,
      Use express_static,
      Use (route GET ''/'' home),
      Use (route GET ''/api/health'' health),
      Use (route GET ''/api/stats'' get_stats),
      Use (route POST ''/api/control/start'' control_start),
      Use (route POST ''/api/control/stop'' control_stop),
      Use (route POST ''/api/control/restart'' control_restart),
      UseError error_handler,
      Use not_found_handler]"

definition app :: "env \<Rightarrow> request \<Rightarrow> response" where
  "app e req = dispatch app_layers e None req"

subsection \<open>Reading a response\<close>

fun json_at :: "string list \<Rightarrow> json \<Rightarrow> json option" where
  "json_at [] j = Some j"
| "json_at (k # ks) (JObj kvs) = (case map_of kvs k of Some v \<Rightarrow> json_at ks v | None \<Rightarrow> None)"
| "json_at (k # ks) _ = None"

definition is_number :: "json option \<Rightarrow> bool" where
  "is_number j = (case j of Some (JNum x) \<Rightarrow> True | _ \<Rightarrow> False)"

text \<open>The requests the parsing layers let through.\<close>

definition body_rejected :: "request \<Rightarrow> bool" where
  "body_rejected req =
     (case req_body req of
        JsonBody (Inl err) \<Rightarrow> True
      | UrlencodedBody (Inl err) \<Rightarrow> True
      | _ \<Rightarrow> False)"

text \<open>The method and path pairs for which \<open>index.js\<close> registers a route.\<close>

definition route_defined :: "http_method \<Rightarrow> string \<Rightarrow> bool" where
  "route_defined m p =
     ((method_match GET m \<and> (route_match ''/'' p \<or> route_match ''/api/health'' p
                                \<or> route_match ''/api/stats'' p))
      \<or> (method_match POST m \<and> (route_match ''/api/control/start'' p
                                  \<or> route_match ''/api/control/stop'' p
                                  \<or> route_match ''/api/control/restart'' p)))"

subsection \<open>The rounding of the specification\<close>



section \<open>Sample inputs\<close>

text \<open>
  A host with 3 GiB of memory of which 1 GiB is free, no file under \<open>public/\<close>, and
  \<open>NODE_ENV\<close> unset.
\<close>

definition sample_readings :: readings where
  "sample_readings =
     \<lparr>rand_cpu = 27 / 64,
      totalmem_total = 3221225472,
      freemem_free = 1073741824,
      freemem_usage = 1073741824,
      totalmem_usage = 3221225472,
      rand_used = 1 / 2,
      rand_free = 255 / 256,
      rand_traffic = 189 / 512,
      process_uptime = 59,
      os_uptime = 90000,
      now = ''2024-01-01T00:00:00.000Z''\<rparr>"

text \<open>
  Readings at which the rounding of binary64 shows: 4 GiB free of 5 GiB, the largest
  Number below one as the draw of \<open>disk.used\<close>, and a draw whose tenfold rounds to \<open>5.75\<close>.
\<close>

definition edge_readings :: readings where
  "edge_readings =
     sample_readings
       \<lparr>freemem_usage := 4294967296,
        totalmem_usage := 5368709120,
        rand_used := 1 - 1 / 2 ^ 53,
        rand_traffic := 2589569785738035 / 2 ^ 52\<rparr>"

definition sample_env :: env where
  "sample_env =
     \<lparr>NODE_ENV = None,
      static_file = (\<lambda>p. None),
      index_html = Inl \<lparr>err_message = ''ENOENT: no such file or directory'',
                        err_status = Some 404\<rparr>,
      obs = sample_readings\<rparr>"

text \<open>The error \<open>express.json()\<close> raises on the body \<open>{ invalid json }\<close>.\<close>

definition malformed_json :: failure where
  "malformed_json =
     \<lparr>err_message = ''Unexpected token i in JSON at position 2'', err_status = Some 400\<rparr>"

definition production_env :: env where
  "production_env = sample_env\<lparr>NODE_ENV := Some ''production''\<rparr>"

section \<open>Properties of the uptime formatting\<close>

lemma js_rem_nonneg:
  assumes "0 \<le> a" and "0 < b"
  shows "js_rem a b = spec_mod a b"
proof -
  from assms have "\<not> a / b < 0"
    by (simp add: not_less)
  then show ?thesis
    by (simp add: js_rem_def spec_mod_def js_trunc_def)
qed

text \<open>
  C1. On every non-negative number of seconds, \<open>formatUptime\<close> is the humanization the
  specification describes: days \<open>\<lfloor>s / 86400\<rfloor>\<close>, hours \<open>\<lfloor>(s mod 86400) / 3600\<rfloor>\<close>, minutes
  \<open>\<lfloor>(s mod 3600) / 60\<rfloor>\<close>; a day clause only for a positive day count, an hour clause only
  for a positive hour count, always a final minute clause with nothing after it; the suffix
  \<open>s\<close> exactly for a count above one, so that 0 and 1 are singular.
\<close>

theorem formatUptime_humanize:
  assumes "0 \<le> seconds"
  shows "formatUptime seconds = spec_humanize seconds"
proof -
  have d: "js_rem seconds (3600 * 24) = spec_mod seconds 86400"
    using js_rem_nonneg [OF assms, of "3600 * 24"] by simp
  have h: "js_rem seconds 3600 = spec_mod seconds 3600"
    using js_rem_nonneg [OF assms, of 3600] by simp
  show ?thesis
    unfolding formatUptime_def spec_humanize_def spec_clause_def Let_def d h
    by simp
qed

theorem formatUptime_humanize_witness:
  "(0::real) \<le> 183845.5 \<and> formatUptime 183845.5 = spec_humanize 183845.5
     \<and> spec_humanize 183845.5 = ''2 days, 3 hours, 4 minutes''"
proof -
  have s: "spec_humanize 183845.5 = ''2 days, 3 hours, 4 minutes''"
    by code_simp
  show ?thesis
    using formatUptime_humanize [of "183845.5"] s by simp
qed

text \<open>
  C2, as the code has it. Of the four format equations, those for 125 and 3660 seconds hold
  as written. A minute count of zero is printed in the singular, so 90000 seconds give
  \<open>1 day, 1 hour, 0 minute\<close> and 59 seconds give \<open>0 minute\<close>.
\<close>

theorem formatUptime_examples:
  "formatUptime 125 = ''2 minutes''
   \<and> formatUptime 3660 = ''1 hour, 1 minute''
   \<and> formatUptime 90000 = ''1 day, 1 hour, 0 minute''
   \<and> formatUptime 59 = ''0 minute''"
  by code_simp

text \<open>
  The equations of C2 with the plural \<open>0 minutes\<close> do not hold of the code.
\<close>

theorem formatUptime_zero_minutes_counterexample:
  "formatUptime 90000 \<noteq> ''1 day, 1 hour, 0 minutes'' \<and> formatUptime 59 \<noteq> ''0 minutes''"
  by code_simp

section \<open>Properties of the rounding\<close>

lemma pow2_powr: "pow2 e = 2 powr (of_int e)"
proof (cases "0 \<le> e")
  case True
  then have "2 powr (of_int e) = (2::real) powr (real (nat e))"
    by simp
  also have "\<dots> = 2 ^ nat e"
    by (simp only: powr_realpow zero_less_numeral)
  finally show ?thesis
    using True by (simp add: pow2_def)
next
  case False
  then have "2 powr (of_int e) = (2::real) powr (- real (nat (- e)))"
    by simp
  also have "\<dots> = 1 / 2 powr (real (nat (- e)))"
    by (simp only: powr_minus_divide)
  also have "\<dots> = 1 / 2 ^ nat (- e)"
    by (simp only: powr_realpow zero_less_numeral)
  finally show ?thesis
    using False by (simp add: pow2_def)
qed

lemma pow2_pos: "0 < pow2 e"
  by (simp add: pow2_powr)

lemma pow2_add: "pow2 (a + b) = pow2 a * pow2 b"
  by (simp add: pow2_powr powr_add)

lemma pow2_mono: "a \<le> b \<Longrightarrow> pow2 a \<le> pow2 b"
  by (simp add: pow2_powr)

lemma pow2_Suc: "pow2 (e + 1) = 2 * pow2 e"
  by (simp add: pow2_powr powr_add)

lemma pow2_int: "0 \<le> k \<Longrightarrow> pow2 k = of_int (2 ^ nat k)"
  by (simp add: pow2_def)

lemma exponent_up_bounds:
  "1 \<le> x \<Longrightarrow> pow2 (exponent_up x) \<le> x \<and> x < pow2 (exponent_up x + 1)"
proof (induction x rule: exponent_up.induct)
  case (1 x)
  show ?case
  proof (cases "2 \<le> x")
    case True
    then have "1 \<le> x / 2"
      by simp
    from "1.IH" [OF True this]
    have "pow2 (exponent_up (x / 2)) \<le> x / 2" "x / 2 < pow2 (exponent_up (x / 2) + 1)"
      by simp_all
    moreover have "exponent_up x = exponent_up (x / 2) + 1"
      using True by (simp add: exponent_up.simps [of x])
    ultimately show ?thesis
      using pow2_Suc [of "exponent_up (x / 2)"] pow2_Suc [of "exponent_up (x / 2) + 1"]
      by (simp only:) linarith
  next
    case False
    then have "exponent_up x = 0"
      by (simp add: exponent_up.simps [of x])
    then show ?thesis
      using False "1.prems" by (simp add: pow2_def)
  qed
qed

lemma exponent_down_bounds:
  "0 < x \<Longrightarrow> x < 1 \<Longrightarrow> pow2 (exponent_down x) \<le> x \<and> x < pow2 (exponent_down x + 1)"
proof (induction x rule: exponent_down.induct)
  case (1 x)
  have e: "exponent_down x = exponent_down (x * 2) - 1"
    using "1.prems" by (simp add: exponent_down.simps [of x])
  show ?case
  proof (cases "x * 2 < 1")
    case True
    have "0 < x * 2"
      using "1.prems" by simp
    from "1.IH" [OF _ this True] "1.prems"
    have "pow2 (exponent_down (x * 2)) \<le> x * 2" "x * 2 < pow2 (exponent_down (x * 2) + 1)"
      by simp_all
    moreover have "pow2 (exponent_down (x * 2)) = 2 * pow2 (exponent_down x)"
      using pow2_Suc [of "exponent_down x"] by (simp add: e)
    moreover have "pow2 (exponent_down (x * 2) + 1) = 2 * pow2 (exponent_down x + 1)"
      using pow2_Suc [of "exponent_down x + 1"] by (simp add: e)
    ultimately show ?thesis
      by simp
  next
    case False
    then have "exponent_down (x * 2) = 0"
      by (simp add: exponent_down.simps [of "x * 2"])
    then have "exponent_down x = - 1"
      using e by simp
    then show ?thesis
      using False "1.prems" by (simp add: pow2_def)
  qed
qed

text \<open>The exponent of a positive real is its binary order of magnitude.\<close>

lemma exponent_bounds:
  assumes "0 < x"
  shows "pow2 (exponent x) \<le> x" "x < pow2 (exponent x + 1)"
  using assms exponent_up_bounds [of x] exponent_down_bounds [of x]
  by (auto simp: exponent_def not_le)

lemma round_half_even_of_int: "round_half_even (of_int n) = n"
  by (simp add: round_half_even_def)

lemma round_half_even_floor:
  "\<lfloor>x\<rfloor> \<le> round_half_even x" "round_half_even x \<le> \<lfloor>x\<rfloor> + 1"
  by (simp_all add: round_half_even_def Let_def)

lemma round_half_even_mono:
  assumes "x \<le> y"
  shows "round_half_even x \<le> round_half_even y"
proof (cases "\<lfloor>x\<rfloor> = \<lfloor>y\<rfloor>")
  case True
  then have "x - of_int \<lfloor>x\<rfloor> \<le> y - of_int \<lfloor>y\<rfloor>"
    using assms by simp
  then show ?thesis
    using True by (auto simp: round_half_even_def Let_def)
next
  case False
  then have "\<lfloor>x\<rfloor> + 1 \<le> \<lfloor>y\<rfloor>"
    using floor_mono [OF assms] by simp
  then show ?thesis
    using round_half_even_floor(2) [of x] round_half_even_floor(1) [of y] by linarith
qed

lemma grid_mono:
  assumes "0 < u" "x \<le> y"
  shows "of_int (round_half_even (x / u)) * u \<le> of_int (round_half_even (y / u)) * u"
proof -
  have "x / u \<le> y / u"
    using assms by (simp add: divide_right_mono)
  then have "round_half_even (x / u) \<le> round_half_even (y / u)"
    by (rule round_half_even_mono)
  then show ?thesis
    using assms(1) by simp
qed

lemma grid_fixed:
  assumes "0 < u"
  shows "of_int (round_half_even (of_int k * u / u)) * u = of_int k * u"
  using assms by (simp add: round_half_even_of_int)

lemma round_double_pos:
  assumes "0 < x"
  shows "round_double x = of_int (round_half_even (x / ulp x)) * ulp x"
  using assms by (simp add: round_double_def)

text \<open>A power of two at or above the binade of \<open>x\<close> lies on the grid of \<open>x\<close>.\<close>

lemma pow2_on_grid:
  assumes "binade x \<le> k"
  shows "pow2 k = of_int (2 ^ nat (k - binade x + 52)) * ulp x"
proof -
  have "pow2 k = pow2 ((k - binade x + 52) + (binade x - 52))"
    by simp
  also have "\<dots> = pow2 (k - binade x + 52) * pow2 (binade x - 52)"
    by (rule pow2_add)
  also have "pow2 (k - binade x + 52) = of_int (2 ^ nat (k - binade x + 52))"
    using assms by (intro pow2_int) simp
  finally show ?thesis
    by (simp add: ulp_def)
qed

lemma round_double_le_pow2:
  assumes "0 < x" "x \<le> pow2 k" "binade x \<le> k"
  shows "round_double x \<le> pow2 k"
proof -
  let ?K = "2 ^ nat (k - binade x + 52) :: int"
  have u: "0 < ulp x"
    by (simp add: ulp_def pow2_pos)
  have p: "pow2 k = of_int ?K * ulp x"
    by (rule pow2_on_grid [OF assms(3)])
  have "round_double x \<le> of_int (round_half_even (of_int ?K * ulp x / ulp x)) * ulp x"
    unfolding round_double_pos [OF assms(1)]
    using assms(2) by (intro grid_mono [OF u]) (simp only: p)
  also have "\<dots> = of_int ?K * ulp x"
    by (rule grid_fixed [OF u])
  finally show ?thesis
    by (simp only: p)
qed

lemma round_double_ge_pow2:
  assumes "0 < x" "pow2 k \<le> x" "binade x \<le> k"
  shows "pow2 k \<le> round_double x"
proof -
  let ?K = "2 ^ nat (k - binade x + 52) :: int"
  have u: "0 < ulp x"
    by (simp add: ulp_def pow2_pos)
  have p: "pow2 k = of_int ?K * ulp x"
    by (rule pow2_on_grid [OF assms(3)])
  have "of_int (round_half_even (of_int ?K * ulp x / ulp x)) * ulp x \<le> round_double x"
    unfolding round_double_pos [OF assms(1)]
    using assms(2) by (intro grid_mono [OF u]) (simp only: p)
  then show ?thesis
    by (simp only: p grid_fixed [OF u])
qed

lemma round_double_mono_pos:
  assumes "0 < x" "x \<le> y"
  shows "round_double x \<le> round_double y"
proof -
  have y: "0 < y"
    using assms by simp
  have ax: "\<bar>x\<bar> = x" and ay: "\<bar>y\<bar> = y"
    using assms by simp_all
  consider "binade x = binade y" | "binade x < binade y" | "binade y < binade x"
    by linarith
  then show ?thesis
  proof cases
    case 1
    then have "ulp x = ulp y"
      by (simp add: ulp_def)
    moreover have "0 < ulp y"
      by (simp add: ulp_def pow2_pos)
    ultimately show ?thesis
      unfolding round_double_pos [OF assms(1)] round_double_pos [OF y]
      using grid_mono [OF _ assms(2), of "ulp y"] by simp
  next
    case 2
    then have ey: "binade y = exponent y" and ex: "exponent x + 1 \<le> binade y"
      by (auto simp: binade_def ax ay max_def split: if_splits)
    have "x < pow2 (exponent x + 1)"
      by (rule exponent_bounds(2) [OF assms(1)])
    also have "\<dots> \<le> pow2 (binade y)"
      by (rule pow2_mono [OF ex])
    finally have "x \<le> pow2 (binade y)"
      by simp
    then have "round_double x \<le> pow2 (binade y)"
      using 2 by (intro round_double_le_pow2 [OF assms(1)]) simp_all
    also have "pow2 (binade y) \<le> y"
      using exponent_bounds(1) [OF y] by (simp add: ey)
    then have "pow2 (binade y) \<le> round_double y"
      by (intro round_double_ge_pow2 [OF y]) simp_all
    finally show ?thesis .
  next
    case 3
    then have ex: "binade x = exponent x" and ey: "exponent y + 1 \<le> binade x"
      by (auto simp: binade_def ax ay max_def split: if_splits)
    have "y < pow2 (exponent y + 1)"
      by (rule exponent_bounds(2) [OF y])
    also have "\<dots> \<le> pow2 (binade x)"
      by (rule pow2_mono [OF ey])
    also have "\<dots> \<le> x"
      using exponent_bounds(1) [OF assms(1)] by (simp add: ex)
    finally show ?thesis
      using assms(2) by simp
  qed
qed

lemma round_double_nonneg:
  assumes "0 \<le> x"
  shows "0 \<le> round_double x"
proof (cases "x = 0")
  case True
  then show ?thesis
    by (simp add: round_double_def)
next
  case False
  then have x: "0 < x"
    using assms by simp
  have u: "0 < ulp x"
    by (simp add: ulp_def pow2_pos)
  have "0 \<le> x / ulp x"
    using x u by simp
  then have "0 \<le> \<lfloor>x / ulp x\<rfloor>"
    by simp
  then have "0 \<le> round_half_even (x / ulp x)"
    using round_half_even_floor(1) [of "x / ulp x"] by linarith
  then show ?thesis
    unfolding round_double_pos [OF x] using u by simp
qed

text \<open>Rounding to binary64 is monotone on the non-negative reals.\<close>

lemma round_double_mono:
  assumes "0 \<le> x" "x \<le> y"
  shows "round_double x \<le> round_double y"
proof (cases "x = 0")
  case True
  then show ?thesis
    using round_double_nonneg [of y] assms by (simp add: round_double_def)
next
  case False
  then show ?thesis
    using assms by (intro round_double_mono_pos) simp_all
qed

lemma round_double_consts:
  "round_double 1 = 1" "round_double 10 = 10" "round_double 100 = 100"
  "round_double 200 = 200" "round_double 300 = 300"
  by code_simp+

text \<open>The largest binary64 value below one is \<open>1 - 2^-53\<close>.\<close>

lemma double_below_one:
  assumes "is_double r" "0 \<le> r" "r < 1"
  shows "r \<le> 1 - 1 / 2 ^ 53"
proof (rule ccontr)
  assume "\<not> r \<le> 1 - 1 / 2 ^ 53"
  then have lo: "1 - 1 / 2 ^ 53 < r"
    by simp
  then have half: "1 / 2 \<le> r"
    by simp
  have pos: "0 < r"
    using half by simp
  have "exponent_down (r * 2) = 0"
    using half by (simp add: exponent_down.simps [of "r * 2"])
  then have "exponent_down r = - 1"
    using pos assms(3) by (simp add: exponent_down.simps [of r])
  then have "exponent \<bar>r\<bar> = - 1"
    using pos assms(3) by (simp add: exponent_def)
  then have u: "ulp r = 1 / 2 ^ 53"
    by (simp add: ulp_def binade_def pow2_def)
  define n where "n = round_half_even (r / ulp r)"
  have "r = of_int n * (1 / 2 ^ 53)"
    using assms(1) pos by (simp add: is_double_def round_double_def n_def u)
  then have r: "r = of_int n / 2 ^ 53"
    by simp
  have "of_int n < (2 ^ 53 :: real)"
    using assms(3) by (simp add: r)
  then have "n < 2 ^ 53"
    by simp
  moreover have "(of_int (2 ^ 53 - 1) :: real) < of_int n"
    using lo by (simp add: r field_simps)
  then have "2 ^ 53 - 1 < n"
    by (simp only: of_int_less_iff)
  ultimately show False
    by simp
qed

text \<open>Bounds on the rounded operations of \<open>stats\<close>.\<close>

lemma scaled_draw_range:
  assumes "0 \<le> x" "x < 1" "round_double k = k" "0 \<le> k"
  shows "0 \<le> js_mul x k" "js_mul x k \<le> k"
proof -
  have "0 \<le> x * k"
    using assms by simp
  then show "0 \<le> js_mul x k"
    unfolding js_mul_def by (rule round_double_nonneg)
  have "x * k \<le> k"
    using assms by (simp add: mult_left_le_one_le)
  with \<open>0 \<le> x * k\<close> have "round_double (x * k) \<le> round_double k"
    by (rule round_double_mono)
  then show "js_mul x k \<le> k"
    by (simp add: js_mul_def assms(3))
qed

lemma cpu_range:
  assumes "0 \<le> x" "x < 1"
  shows "0 \<le> \<lfloor>js_mul x 100\<rfloor>" "\<lfloor>js_mul x 100\<rfloor> \<le> 100"
proof -
  have r: "0 \<le> js_mul x 100" "js_mul x 100 \<le> 100"
    using scaled_draw_range [OF assms, of 100] by (simp_all add: round_double_consts)
  show "0 \<le> \<lfloor>js_mul x 100\<rfloor>"
    using r(1) by simp
  show "\<lfloor>js_mul x 100\<rfloor> \<le> 100"
    using r(2) by (simp add: floor_le_iff)
qed

lemma cpu_below_hundred:
  assumes "is_double x" "0 \<le> x" "x < 1"
  shows "\<lfloor>js_mul x 100\<rfloor> \<le> 99"
proof -
  have "x \<le> 1 - 1 / 2 ^ 53"
    by (rule double_below_one [OF assms])
  then have "x * 100 \<le> (1 - 1 / 2 ^ 53) * 100"
    by simp
  moreover have "0 \<le> x * 100"
    using assms(2) by simp
  ultimately have "round_double (x * 100) \<le> round_double ((1 - 1 / 2 ^ 53) * 100)"
    by (intro round_double_mono)
  also have "round_double ((1 - 1 / 2 ^ 53) * 100) = 100 - 1 / 2 ^ 46"
    by code_simp
  finally have "js_mul x 100 < 100"
    by (simp add: js_mul_def)
  then show ?thesis
    by (simp add: floor_le_iff)
qed

lemma disk_range:
  assumes "0 \<le> x" "x < 1"
  shows "100 \<le> \<lfloor>js_add (js_mul x 200) 100\<rfloor>" "\<lfloor>js_add (js_mul x 200) 100\<rfloor> \<le> 300"
proof -
  have r: "0 \<le> js_mul x 200" "js_mul x 200 \<le> 200"
    using scaled_draw_range [OF assms, of 200] by (simp_all add: round_double_consts)
  have "round_double 100 \<le> round_double (js_mul x 200 + 100)"
    using r(1) by (intro round_double_mono) simp_all
  then have lo: "100 \<le> js_add (js_mul x 200) 100"
    by (simp add: js_add_def round_double_consts)
  have "round_double (js_mul x 200 + 100) \<le> round_double 300"
    using r by (intro round_double_mono) simp_all
  then have hi: "js_add (js_mul x 200) 100 \<le> 300"
    by (simp add: js_add_def round_double_consts)
  show "100 \<le> \<lfloor>js_add (js_mul x 200) 100\<rfloor>"
    using lo by (simp add: le_floor_iff)
  show "\<lfloor>js_add (js_mul x 200) 100\<rfloor> \<le> 300"
    using hi by (simp add: floor_le_iff)
qed

lemma disk_below_three_hundred:
  assumes "0 \<le> x" "x \<le> 1 - 1 / 2 ^ 52"
  shows "\<lfloor>js_add (js_mul x 200) 100\<rfloor> \<le> 299"
proof -
  have "x * 200 \<le> (1 - 1 / 2 ^ 52) * 200"
    using assms(2) by simp
  moreover have "0 \<le> x * 200"
    using assms(1) by simp
  ultimately have "round_double (x * 200) \<le> round_double ((1 - 1 / 2 ^ 52) * 200)"
    by (intro round_double_mono)
  also have "round_double ((1 - 1 / 2 ^ 52) * 200) = 200 - 1 / 2 ^ 44"
    by code_simp
  finally have a: "js_mul x 200 \<le> 200 - 1 / 2 ^ 44"
    by (simp add: js_mul_def)
  have "0 \<le> js_mul x 200"
    unfolding js_mul_def using \<open>0 \<le> x * 200\<close> by (rule round_double_nonneg)
  then have "round_double (js_mul x 200 + 100) \<le> round_double (200 - 1 / 2 ^ 44 + 100)"
    using a by (intro round_double_mono) simp_all
  also have "round_double (200 - 1 / 2 ^ 44 + 100) = 300 - 1 / 2 ^ 44"
    by code_simp
  finally have "js_add (js_mul x 200) 100 < 300"
    by (simp add: js_add_def)
  then show ?thesis
    by (simp add: floor_le_iff)
qed

lemma mem_usage_range:
  assumes "0 \<le> f" "f \<le> t" "0 < t"
  shows "0 \<le> \<lfloor>js_mul (js_sub 1 (js_div f t)) 100\<rfloor>"
    "\<lfloor>js_mul (js_sub 1 (js_div f t)) 100\<rfloor> \<le> 100"
proof -
  have "0 \<le> f / t" "f / t \<le> 1"
    using assms by simp_all
  then have q: "0 \<le> js_div f t" "js_div f t \<le> 1"
    using round_double_nonneg [of "f / t"] round_double_mono [of "f / t" 1]
    by (simp_all add: js_div_def round_double_consts)
  then have "0 \<le> 1 - js_div f t" "1 - js_div f t \<le> 1"
    by simp_all
  then have s: "0 \<le> js_sub 1 (js_div f t)" "js_sub 1 (js_div f t) \<le> 1"
    using round_double_nonneg [of "1 - js_div f t"] round_double_mono [of "1 - js_div f t" 1]
    by (simp_all add: js_sub_def round_double_consts)
  then have "0 \<le> js_sub 1 (js_div f t) * 100" "js_sub 1 (js_div f t) * 100 \<le> 100"
    by simp_all
  then have p: "0 \<le> js_mul (js_sub 1 (js_div f t)) 100" "js_mul (js_sub 1 (js_div f t)) 100 \<le> 100"
    using round_double_nonneg [of "js_sub 1 (js_div f t) * 100"]
      round_double_mono [of "js_sub 1 (js_div f t) * 100" 100]
    by (simp_all add: js_mul_def round_double_consts)
  show "0 \<le> \<lfloor>js_mul (js_sub 1 (js_div f t)) 100\<rfloor>"
    using p(1) by simp
  show "\<lfloor>js_mul (js_sub 1 (js_div f t)) 100\<rfloor> \<le> 100"
    using p(2) by (simp add: floor_le_iff)
qed

lemma mem_mb_mono:
  assumes "0 < f" "f \<le> t"
  shows "\<lfloor>js_div (js_div f 1024) 1024\<rfloor> \<le> \<lfloor>js_div (js_div t 1024) 1024\<rfloor>"
proof -
  have "0 \<le> f / 1024" "f / 1024 \<le> t / 1024"
    using assms by simp_all
  then have a: "js_div f 1024 \<le> js_div t 1024" "0 \<le> js_div f 1024"
    using round_double_mono [of "f / 1024" "t / 1024"] round_double_nonneg [of "f / 1024"]
    by (simp_all add: js_div_def)
  then have "0 \<le> js_div f 1024 / 1024" "js_div f 1024 / 1024 \<le> js_div t 1024 / 1024"
    by simp_all
  then have "js_div (js_div f 1024) 1024 \<le> js_div (js_div t 1024) 1024"
    unfolding js_div_def [of "js_div f 1024"] js_div_def [of "js_div t 1024"]
    by (intro round_double_mono)
  then show ?thesis
    by (rule floor_mono)
qed

section \<open>Properties of the statistics snapshot\<close>

text \<open>The handler of \<open>GET /api/stats\<close> always answers 200 with the statistics object.\<close>

lemma get_stats_sends:
  "get_stats e req = Done \<lparr>status = 200, content = Json (stats (obs e)), delay_ms = 0\<rparr>"
  by (simp add: get_stats_def)



text \<open>
  With 4 GiB free of 5 GiB the quotient rounds up, the difference falls below a fifth and
  the field is 19, where the exact value is 20.
\<close>

lemma memory_usage_four_of_five:
  "json_at [''memory'', ''usage''] (stats edge_readings) = Some (JNum 19)
   \<and> \<lfloor>(1 - freemem_usage edge_readings / totalmem_usage edge_readings) * 100\<rfloor> = 20"
proof -
  have x: "\<lfloor>(1 - freemem_usage edge_readings / totalmem_usage edge_readings) * 100\<rfloor> = 20"
    by (simp add: edge_readings_def)
  have v: "\<lfloor>js_mul (js_sub 1 (js_div (freemem_usage edge_readings)
                                        (totalmem_usage edge_readings))) 100\<rfloor> = 19"
    by code_simp
  have "totalmem_usage edge_readings \<noteq> 0"
    by (simp add: edge_readings_def)
  then have "json_at [''memory'', ''usage''] (stats edge_readings) = Some (JNum 19)"
    by (simp add: stats_def v)
  with x show ?thesis
    by (intro conjI)
qed


text \<open>
  C5, as the code has it. The \<open>network.traffic\<close> field is a string, not a JSON number: the
  \<open>toFixed(1)\<close> rendering of the Number \<open>Math.random() * 10\<close>, that is the digits of
  \<open>n div 10\<close>, a point and the digit \<open>n mod 10\<close>, for the integer \<open>n \<le> 100\<close> nearest to ten
  times that Number. It denotes a value from \<open>0.0\<close> to \<open>10.0\<close>.
\<close>

theorem traffic_is_fixed_string:
  assumes "0 \<le> rand_traffic r" "rand_traffic r < 1"
  shows "json_at [''network'', ''traffic''] (stats r)
           = Some (JStr (decimal (nat \<lfloor>js_mul (rand_traffic r) 10 * 10 + 1 / 2\<rfloor> div 10) @ ''.''
                         @ decimal (nat \<lfloor>js_mul (rand_traffic r) 10 * 10 + 1 / 2\<rfloor> mod 10)))
         \<and> nat \<lfloor>js_mul (rand_traffic r) 10 * 10 + 1 / 2\<rfloor> \<le> 100"
proof -
  let ?x = "js_mul (rand_traffic r) 10"
  have x: "0 \<le> ?x" "?x \<le> 10"
    using scaled_draw_range [OF assms, of 10] by (simp_all add: round_double_consts)
  then have a: "\<bar>?x\<bar> = ?x"
    by simp
  have "?x * 10 + 1 / 2 < 101"
    using x(2) by simp
  then have "\<lfloor>?x * 10 + 1 / 2\<rfloor> < 101"
    by linarith
  then have b: "nat \<lfloor>?x * 10 + 1 / 2\<rfloor> \<le> 100"
    by linarith
  have c: "\<not> ?x < 0"
    using x(1) by simp
  have "toFixed1 ?x
          = decimal (nat \<lfloor>?x * 10 + 1 / 2\<rfloor> div 10) @ ''.''
            @ decimal (nat \<lfloor>?x * 10 + 1 / 2\<rfloor> mod 10)"
    unfolding toFixed1_def Let_def a using c by simp
  then show ?thesis
    using b by (simp add: stats_def)
qed

theorem traffic_is_fixed_string_witness:
  "0 \<le> rand_traffic sample_readings \<and> rand_traffic sample_readings < 1
   \<and> json_at [''network'', ''traffic''] (stats sample_readings) = Some (JStr ''3.7'')"
proof -
  have h: "0 \<le> rand_traffic sample_readings" "rand_traffic sample_readings < 1"
    by (simp_all add: sample_readings_def)
  have f: "nat \<lfloor>js_mul (rand_traffic sample_readings) 10 * 10 + 1 / 2\<rfloor> = 37"
    by code_simp
  have d: "decimal (37 div 10) @ ''.'' @ decimal (37 mod 10) = ''3.7''"
    by code_simp
  show ?thesis
    using traffic_is_fixed_string [OF h] h by (simp only: f d)
qed

text \<open>
  A draw just below \<open>0.575\<close> whose tenfold rounds to the Number \<open>5.75\<close>: the field is \<open>5.8\<close>,
  the tie going to the larger digit.
\<close>

lemma traffic_rounded_product:
  "json_at [''network'', ''traffic''] (stats edge_readings) = Some (JStr ''5.8'')"
proof -
  have "toFixed1 (js_mul (rand_traffic edge_readings) 10) = ''5.8''"
    by code_simp
  then show ?thesis
    by (simp add: stats_def)
qed

text \<open>On the sample readings the traffic field is the string \<open>3.7\<close>, not a number.\<close>

theorem traffic_number_counterexample:
  "\<not> is_number (json_at [''network'', ''traffic''] (stats sample_readings))"
  by (simp add: stats_def is_number_def)

text \<open>
  C8. Whatever the pseudo-random draws (numbers in \<open>[0, 1)\<close>) and the memory readings
  (with \<open>0 < free \<le> total\<close> at each reading) are, the statistics object has
  \<open>memory.free \<le> memory.total\<close>, \<open>0 \<le> memory.usage \<le> 100\<close>, \<open>0 \<le> cpu.usage \<le> 100\<close>, and
  \<open>disk.total\<close>, \<open>disk.used\<close> and \<open>disk.free\<close> each above 0.
\<close>

theorem stats_invariants:
  assumes "0 \<le> rand_cpu r" "rand_cpu r < 1"
      and "0 \<le> rand_used r" "rand_used r < 1"
      and "0 \<le> rand_free r" "rand_free r < 1"
      and "0 < freemem_free r" "freemem_free r \<le> totalmem_total r"
      and "0 < freemem_usage r" "freemem_usage r \<le> totalmem_usage r"
  shows "\<exists>cpu mt mf mu dt du df :: real.
           json_at [''cpu'', ''usage''] (stats r) = Some (JNum cpu)
         \<and> json_at [''memory'', ''total''] (stats r) = Some (JNum mt)
         \<and> json_at [''memory'', ''free''] (stats r) = Some (JNum mf)
         \<and> json_at [''memory'', ''usage''] (stats r) = Some (JNum mu)
         \<and> json_at [''disk'', ''total''] (stats r) = Some (JNum dt)
         \<and> json_at [''disk'', ''used''] (stats r) = Some (JNum du)
         \<and> json_at [''disk'', ''free''] (stats r) = Some (JNum df)
         \<and> mf \<le> mt \<and> 0 \<le> mu \<and> mu \<le> 100 \<and> 0 \<le> cpu \<and> cpu \<le> 100
         \<and> 0 < dt \<and> 0 < du \<and> 0 < df"
proof -
  let ?c = "\<lfloor>js_mul (rand_cpu r) 100\<rfloor>"
    and ?u = "\<lfloor>js_add (js_mul (rand_used r) 200) 100\<rfloor>"
    and ?f = "\<lfloor>js_add (js_mul (rand_free r) 200) 100\<rfloor>"
    and ?mt = "\<lfloor>js_div (js_div (totalmem_total r) 1024) 1024\<rfloor>"
    and ?mf = "\<lfloor>js_div (js_div (freemem_free r) 1024) 1024\<rfloor>"
    and ?mu = "\<lfloor>js_mul (js_sub 1 (js_div (freemem_usage r) (totalmem_usage r))) 100\<rfloor>"
  have nz: "totalmem_usage r \<noteq> 0"
    using assms(9,10) by simp
  have fields:
    "json_at [''cpu'', ''usage''] (stats r) = Some (JNum (of_int ?c))"
    "json_at [''memory'', ''total''] (stats r) = Some (JNum (of_int ?mt))"
    "json_at [''memory'', ''free''] (stats r) = Some (JNum (of_int ?mf))"
    "json_at [''memory'', ''usage''] (stats r) = Some (JNum (of_int ?mu))"
    "json_at [''disk'', ''total''] (stats r) = Some (JNum 500)"
    "json_at [''disk'', ''used''] (stats r) = Some (JNum (of_int ?u))"
    "json_at [''disk'', ''free''] (stats r) = Some (JNum (of_int ?f))"
    using nz by (simp_all add: stats_def)
  have "0 \<le> ?c" "?c \<le> 100"
    by (rule cpu_range [OF assms(1,2)])+
  then have c: "0 \<le> (of_int ?c :: real) \<and> (of_int ?c :: real) \<le> 100"
    by simp
  have "100 \<le> ?u"
    by (rule disk_range(1) [OF assms(3,4)])
  then have "0 < ?u"
    by linarith
  then have u: "0 < (of_int ?u :: real)"
    by (simp only: of_int_0_less_iff)
  have "100 \<le> ?f"
    by (rule disk_range(1) [OF assms(5,6)])
  then have "0 < ?f"
    by linarith
  then have f: "0 < (of_int ?f :: real)"
    by (simp only: of_int_0_less_iff)
  have "0 \<le> freemem_usage r" "0 < totalmem_usage r"
    using assms(9,10) by simp_all
  from mem_usage_range [OF this(1) assms(10) this(2)]
  have "0 \<le> ?mu" "?mu \<le> 100"
    by simp_all
  then have mu: "0 \<le> (of_int ?mu :: real) \<and> (of_int ?mu :: real) \<le> 100"
    by simp
  have m: "(of_int ?mf :: real) \<le> of_int ?mt"
    using mem_mb_mono [OF assms(7,8)] by simp
  have dt: "(0::real) < 500"
    by simp
  show ?thesis
    using fields c u f mu m dt by blast
qed

theorem stats_invariants_witness:
  "(0 \<le> rand_cpu sample_readings \<and> rand_cpu sample_readings < 1
    \<and> 0 \<le> rand_used sample_readings \<and> rand_used sample_readings < 1
    \<and> 0 \<le> rand_free sample_readings \<and> rand_free sample_readings < 1
    \<and> 0 < freemem_free sample_readings
    \<and> freemem_free sample_readings \<le> totalmem_total sample_readings
    \<and> 0 < freemem_usage sample_readings
    \<and> freemem_usage sample_readings \<le> totalmem_usage sample_readings)
   \<and> (\<exists>cpu mt mf mu dt du df :: real.
           json_at [''cpu'', ''usage''] (stats sample_readings) = Some (JNum cpu)
         \<and> json_at [''memory'', ''total''] (stats sample_readings) = Some (JNum mt)
         \<and> json_at [''memory'', ''free''] (stats sample_readings) = Some (JNum mf)
         \<and> json_at [''memory'', ''usage''] (stats sample_readings) = Some (JNum mu)
         \<and> json_at [''disk'', ''total''] (stats sample_readings) = Some (JNum dt)
         \<and> json_at [''disk'', ''used''] (stats sample_readings) = Some (JNum du)
         \<and> json_at [''disk'', ''free''] (stats sample_readings) = Some (JNum df)
         \<and> mf \<le> mt \<and> 0 \<le> mu \<and> mu \<le> 100 \<and> 0 \<le> cpu \<and> cpu \<le> 100
         \<and> 0 < dt \<and> 0 < du \<and> 0 < df)"
proof -
  have h: "0 \<le> rand_cpu sample_readings" "rand_cpu sample_readings < 1"
    "0 \<le> rand_used sample_readings" "rand_used sample_readings < 1"
    "0 \<le> rand_free sample_readings" "rand_free sample_readings < 1"
    "0 < freemem_free sample_readings"
    "freemem_free sample_readings \<le> totalmem_total sample_readings"
    "0 < freemem_usage sample_readings"
    "freemem_usage sample_readings \<le> totalmem_usage sample_readings"
    by (simp_all add: sample_readings_def)
  from stats_invariants [OF h] h show ?thesis
    by (intro conjI) assumption+
qed

text \<open>
  C10, as the code has it. For draws that are Numbers in \<open>[0, 1)\<close>, \<open>cpu.usage\<close> is an integer
  from 0 to 99 and \<open>disk.total\<close> is exactly 500; \<open>disk.used\<close> and \<open>disk.free\<close> are integers
  from 100 to 300, and at most 299 whenever the draw is at most \<open>1 - 2^-52\<close>.
\<close>

theorem stats_synthetic_ranges:
  assumes "is_double (rand_cpu r)" "0 \<le> rand_cpu r" "rand_cpu r < 1"
      and "0 \<le> rand_used r" "rand_used r < 1"
      and "0 \<le> rand_free r" "rand_free r < 1"
  shows "\<exists>c u f :: int.
           json_at [''cpu'', ''usage''] (stats r) = Some (JNum (of_int c)) \<and> 0 \<le> c \<and> c \<le> 99
         \<and> json_at [''disk'', ''total''] (stats r) = Some (JNum 500)
         \<and> json_at [''disk'', ''used''] (stats r) = Some (JNum (of_int u)) \<and> 100 \<le> u
         \<and> u \<le> (if rand_used r \<le> 1 - 1 / 2 ^ 52 then 299 else 300)
         \<and> json_at [''disk'', ''free''] (stats r) = Some (JNum (of_int f)) \<and> 100 \<le> f
         \<and> f \<le> (if rand_free r \<le> 1 - 1 / 2 ^ 52 then 299 else 300)"
proof -
  let ?c = "\<lfloor>js_mul (rand_cpu r) 100\<rfloor>"
    and ?u = "\<lfloor>js_add (js_mul (rand_used r) 200) 100\<rfloor>"
    and ?f = "\<lfloor>js_add (js_mul (rand_free r) 200) 100\<rfloor>"
  have "json_at [''cpu'', ''usage''] (stats r) = Some (JNum (of_int ?c))"
       "json_at [''disk'', ''total''] (stats r) = Some (JNum 500)"
       "json_at [''disk'', ''used''] (stats r) = Some (JNum (of_int ?u))"
       "json_at [''disk'', ''free''] (stats r) = Some (JNum (of_int ?f))"
    by (simp_all add: stats_def)
  moreover have "0 \<le> ?c \<and> ?c \<le> 99"
    using cpu_range(1) [OF assms(2,3)] cpu_below_hundred [OF assms(1,2,3)] by simp
  moreover have "100 \<le> ?u \<and> ?u \<le> (if rand_used r \<le> 1 - 1 / 2 ^ 52 then 299 else 300)"
    using disk_range [OF assms(4,5)] disk_below_three_hundred [OF assms(4)] by simp
  moreover have "100 \<le> ?f \<and> ?f \<le> (if rand_free r \<le> 1 - 1 / 2 ^ 52 then 299 else 300)"
    using disk_range [OF assms(6,7)] disk_below_three_hundred [OF assms(6)] by simp
  ultimately show ?thesis
    by blast
qed

theorem stats_synthetic_ranges_witness:
  "(is_double (rand_cpu sample_readings)
    \<and> 0 \<le> rand_cpu sample_readings \<and> rand_cpu sample_readings < 1
    \<and> 0 \<le> rand_used sample_readings \<and> rand_used sample_readings < 1
    \<and> 0 \<le> rand_free sample_readings \<and> rand_free sample_readings < 1)
   \<and> (\<exists>c u f :: int.
           json_at [''cpu'', ''usage''] (stats sample_readings) = Some (JNum (of_int c))
         \<and> 0 \<le> c \<and> c \<le> 99
         \<and> json_at [''disk'', ''total''] (stats sample_readings) = Some (JNum 500)
         \<and> json_at [''disk'', ''used''] (stats sample_readings) = Some (JNum (of_int u))
         \<and> 100 \<le> u \<and> u \<le> 299
         \<and> json_at [''disk'', ''free''] (stats sample_readings) = Some (JNum (of_int f))
         \<and> 100 \<le> f \<and> f \<le> 299)"
proof -
  have d: "is_double (rand_cpu sample_readings)"
    by code_simp
  have h: "0 \<le> rand_cpu sample_readings" "rand_cpu sample_readings < 1"
    "0 \<le> rand_used sample_readings" "rand_used sample_readings < 1"
    "0 \<le> rand_free sample_readings" "rand_free sample_readings < 1"
    by (simp_all add: sample_readings_def)
  have s: "rand_used sample_readings \<le> 1 - 1 / 2 ^ 52"
    "rand_free sample_readings \<le> 1 - 1 / 2 ^ 52"
    by (simp_all add: sample_readings_def)
  from stats_synthetic_ranges [OF d h]
  have "\<exists>c u f :: int.
           json_at [''cpu'', ''usage''] (stats sample_readings) = Some (JNum (of_int c))
         \<and> 0 \<le> c \<and> c \<le> 99
         \<and> json_at [''disk'', ''total''] (stats sample_readings) = Some (JNum 500)
         \<and> json_at [''disk'', ''used''] (stats sample_readings) = Some (JNum (of_int u))
         \<and> 100 \<le> u \<and> u \<le> 299
         \<and> json_at [''disk'', ''free''] (stats sample_readings) = Some (JNum (of_int f))
         \<and> 100 \<le> f \<and> f \<le> 299"
    by (simp only: s if_True)
  with d h show ?thesis
    by (intro conjI) assumption+
qed

text \<open>
  The largest Number below one is a draw the language allows. There \<open>r * 200\<close> rounds to
  \<open>200 - 2^-45\<close>, the sum with 100 lies midway between two Numbers and rounds to 300, and
  \<open>disk.used\<close> is 300, outside the range of C10.
\<close>

theorem disk_used_three_hundred_counterexample:
  "is_double (rand_used edge_readings)
   \<and> 0 \<le> rand_used edge_readings \<and> rand_used edge_readings < 1
   \<and> json_at [''disk'', ''used''] (stats edge_readings) = Some (JNum 300)"
proof -
  have d: "is_double (rand_used edge_readings)"
    by code_simp
  have h: "0 \<le> rand_used edge_readings" "rand_used edge_readings < 1"
    by (simp_all add: edge_readings_def)
  have v: "\<lfloor>js_add (js_mul (rand_used edge_readings) 200) 100\<rfloor> = 300"
    by code_simp
  have "json_at [''disk'', ''used''] (stats edge_readings) = Some (JNum 300)"
    by (simp add: stats_def v)
  with d h show ?thesis
    by simp
qed

section \<open>Properties of the request pipeline\<close>

lemma parsers_pass:
  assumes "\<not> body_rejected req"
  shows "express_json e req = Next" "express_urlencoded e req = Next"
  using assms
  by (auto simp: body_rejected_def express_json_def express_urlencoded_def
           split: payload.splits sum.splits)

lemma pattern_bases:
  "map lower_char (strip_slash ''/'') = []"
  "map lower_char (strip_slash ''/api/health'') = ''/api/health''"
  "map lower_char (strip_slash ''/api/stats'') = ''/api/stats''"
  "map lower_char (strip_slash ''/api/control/start'') = ''/api/control/start''"
  "map lower_char (strip_slash ''/api/control/stop'') = ''/api/control/stop''"
  "map lower_char (strip_slash ''/api/control/restart'') = ''/api/control/restart''"
  by code_simp+

lemma route_match_start:
  "route_match ''/api/control/start'' p
     = (map lower_char p = ''/api/control/start'' \<or> map lower_char p = ''/api/control/start/'')"
  by (simp add: route_match_def Let_def pattern_bases)

lemma route_match_stop:
  "route_match ''/api/control/stop'' p
     = (map lower_char p = ''/api/control/stop'' \<or> map lower_char p = ''/api/control/stop/'')"
  by (simp add: route_match_def Let_def pattern_bases)

lemma route_match_restart:
  "route_match ''/api/control/restart'' p
     = (map lower_char p = ''/api/control/restart''
        \<or> map lower_char p = ''/api/control/restart/'')"
  by (simp add: route_match_def Let_def pattern_bases)

lemma route_match_distinct:
  "route_match ''/api/control/stop'' p \<Longrightarrow> \<not> route_match ''/api/control/start'' p"
  "route_match ''/api/control/restart'' p \<Longrightarrow> \<not> route_match ''/api/control/start'' p"
  "route_match ''/api/control/restart'' p \<Longrightarrow> \<not> route_match ''/api/control/stop'' p"
  by (auto simp: route_match_start route_match_stop route_match_restart)

text \<open>
  A \<open>GET /api/stats\<close> that no static file shadows is answered by \<open>get_stats\<close>, so the
  properties of \<open>stats\<close> above are properties of the response of the application.
\<close>

lemma route_match_stats_distinct:
  assumes "route_match ''/api/stats'' p"
  shows "\<not> route_match ''/'' p" "\<not> route_match ''/api/health'' p"
  using assms by (auto simp: route_match_def Let_def pattern_bases)

lemma app_serves_stats:
  assumes "req_method req = GET"
      and "\<not> body_rejected req"
      and "static_file e (req_path req) = None"
      and "route_match ''/api/stats'' (req_path req)"
  shows "app e req = \<lparr>status = 200, content = Json (stats (obs e)), delay_ms = 0\<rparr>"
proof -
  have pre: "cors e req = Next" "express_static e req = Next"
    using assms(1,3) by (simp_all add: cors_def express_static_def)
  have routes:
    "route GET ''/'' home e req = Next"
    "route GET ''/api/health'' health e req = Next"
    "route GET ''/api/stats'' get_stats e req = get_stats e req"
    using assms(1,4) route_match_stats_distinct [OF assms(4)]
    by (simp_all add: route_def method_match_def)
  show ?thesis
    unfolding app_def app_layers_def dispatch.simps
    by (simp add: pre routes parsers_pass [OF assms(2)] morgan_def helmet_def compression_def
          get_stats_sends)
qed

text \<open>A \<open>POST\<close> whose body the parsers accept comes to the control routes untouched.\<close>

lemma post_reaches_control_routes:
  assumes "req_method req = POST" and "\<not> body_rejected req"
  shows "app e req =
      dispatch [Use (route POST ''/api/control/start'' control_start),
                Use (route POST ''/api/control/stop'' control_stop),
                Use (route POST ''/api/control/restart'' control_restart),
                UseError error_handler,
                Use not_found_handler] e None req"
  using assms(1) parsers_pass [OF assms(2), of e]
  by (simp add: app_def app_layers_def morgan_def helmet_def cors_def compression_def
        express_static_def route_def method_match_def)

text \<open>
  C3, at the failing input. A \<open>POST /api/control/start\<close> whose JSON body does not parse is
  not answered with 400: the error that \<open>express.json()\<close> raises skips every route and is
  caught by the error-handling middleware of \<open>index.js\<close>, which answers 500 whatever the
  status the error carries.
\<close>

theorem malformed_json_start_responds_500:
  "app e \<lparr>req_method = POST, req_path = ''/api/control/start'',
          req_body = JsonBody (Inl malformed_json)\<rparr>
     = \<lparr>status = 500,
        content = Json (JObj [(''error'', JStr ''Something went wrong!''),
                              (''message'', JStr (if NODE_ENV e = Some ''production''
                                                  then ''Server error''
                                                  else ''Unexpected token i in JSON at position 2''))]),
        delay_ms = 0\<rparr>"
  by (simp add: app_def app_layers_def morgan_def helmet_def cors_def express_json_def
        express_urlencoded_def compression_def express_static_def route_def method_match_def
        error_handler_def malformed_json_def)

text \<open>
  C6. Every \<open>POST\<close> that reaches one of the three control routes, that is, whose body the
  parsing layers did not reject, is answered with status 200, \<open>success = true\<close> and the fixed
  message of the action, whatever the body, the environment and the readings are; the
  timer's delay is 1000 ms for start and stop and 2000 ms for restart.
\<close>

theorem control_routes_succeed:
  assumes "req_method req = POST"
      and "\<not> body_rejected req"
      and "(pattern, msg, d) \<in>
             {(''/api/control/start'', ''Server started successfully'', 1000),
              (''/api/control/stop'', ''Server stopped successfully'', 1000),
              (''/api/control/restart'', ''Server restarted successfully'', 2000)}"
      and "route_match pattern (req_path req)"
  shows "app e req =
           \<lparr>status = 200,
            content = Json (JObj [(''success'', JBool True),
                                  (''message'', JStr msg),
                                  (''timestamp'', JStr (now (obs e)))]),
            delay_ms = d\<rparr>"
  unfolding post_reaches_control_routes [OF assms(1,2)]
  using assms(1,3,4) route_match_distinct [of "req_path req"]
  by (auto simp: route_def method_match_def control_start_def control_stop_def
        control_restart_def)

theorem control_routes_succeed_witness:
  "app sample_env \<lparr>req_method = POST, req_path = ''/api/control/start'', req_body = NoBody\<rparr>
     = \<lparr>status = 200,
        content = Json (JObj [(''success'', JBool True),
                              (''message'', JStr ''Server started successfully''),
                              (''timestamp'', JStr ''2024-01-01T00:00:00.000Z'')]),
        delay_ms = 1000\<rparr>
   \<and> app sample_env \<lparr>req_method = POST, req_path = ''/api/control/stop'',
                       req_body = JsonBody (Inr (JObj [(''test'', JStr ''data'')]))\<rparr>
     = \<lparr>status = 200,
        content = Json (JObj [(''success'', JBool True),
                              (''message'', JStr ''Server stopped successfully''),
                              (''timestamp'', JStr ''2024-01-01T00:00:00.000Z'')]),
        delay_ms = 1000\<rparr>
   \<and> app sample_env \<lparr>req_method = POST, req_path = ''/API/Control/Restart/'',
                       req_body = OtherBody\<rparr>
     = \<lparr>status = 200,
        content = Json (JObj [(''success'', JBool True),
                              (''message'', JStr ''Server restarted successfully''),
                              (''timestamp'', JStr ''2024-01-01T00:00:00.000Z'')]),
        delay_ms = 2000\<rparr>"
proof -
  let ?r1 = "\<lparr>req_method = POST, req_path = ''/api/control/start'', req_body = NoBody\<rparr>"
  let ?r2 = "\<lparr>req_method = POST, req_path = ''/api/control/stop'',
              req_body = JsonBody (Inr (JObj [(''test'', JStr ''data'')]))\<rparr>"
  let ?r3 = "\<lparr>req_method = POST, req_path = ''/API/Control/Restart/'', req_body = OtherBody\<rparr>"
  have m: "req_method ?r1 = POST" "req_method ?r2 = POST" "req_method ?r3 = POST"
    by simp_all
  have b: "\<not> body_rejected ?r1" "\<not> body_rejected ?r2" "\<not> body_rejected ?r3"
    by (simp_all add: body_rejected_def)
  have p: "route_match ''/api/control/start'' (req_path ?r1)"
    "route_match ''/api/control/stop'' (req_path ?r2)"
    "route_match ''/api/control/restart'' (req_path ?r3)"
    by code_simp+
  have t: "now (obs sample_env) = ''2024-01-01T00:00:00.000Z''"
    by (simp add: sample_env_def sample_readings_def)
  have "app sample_env ?r1 =
          \<lparr>status = 200,
           content = Json (JObj [(''success'', JBool True),
                                 (''message'', JStr ''Server started successfully''),
                                 (''timestamp'', JStr (now (obs sample_env)))]),
           delay_ms = 1000\<rparr>"
    by (rule control_routes_succeed [OF m(1) b(1) _ p(1)]) simp
  moreover have "app sample_env ?r2 =
          \<lparr>status = 200,
           content = Json (JObj [(''success'', JBool True),
                                 (''message'', JStr ''Server stopped successfully''),
                                 (''timestamp'', JStr (now (obs sample_env)))]),
           delay_ms = 1000\<rparr>"
    by (rule control_routes_succeed [OF m(2) b(2) _ p(2)]) simp
  moreover have "app sample_env ?r3 =
          \<lparr>status = 200,
           content = Json (JObj [(''success'', JBool True),
                                 (''message'', JStr ''Server restarted successfully''),
                                 (''timestamp'', JStr (now (obs sample_env)))]),
           delay_ms = 2000\<rparr>"
    by (rule control_routes_succeed [OF m(3) b(3) _ p(3)]) simp
  ultimately show ?thesis
    unfolding t by (intro conjI)
qed

text \<open>
  C7, as the code has it. A request that is not an \<open>OPTIONS\<close> request, whose body the parsing
  layers did not reject, and whose method and path match no static file and no route, is
  answered with status 404, \<open>error = Not Found\<close> and the message built around the literal
  path of the request.
\<close>

theorem unmatched_request_not_found:
  assumes "req_method req \<noteq> OPTIONS"
      and "\<not> body_rejected req"
      and "static_file e (req_path req) = None"
      and "\<not> route_defined (req_method req) (req_path req)"
  shows "app e req =
           \<lparr>status = 404,
            content = Json (JObj [(''error'', JStr ''Not Found''),
                                  (''message'', JStr (''The requested resource at '' @ req_path req
                                                      @ '' was not found''))]),
            delay_ms = 0\<rparr>"
proof -
  have pre: "cors e req = Next" "express_static e req = Next"
    using assms(1,3) by (simp_all add: cors_def express_static_def)
  have routes:
    "route GET ''/'' home e req = Next"
    "route GET ''/api/health'' health e req = Next"
    "route GET ''/api/stats'' get_stats e req = Next"
    "route POST ''/api/control/start'' control_start e req = Next"
    "route POST ''/api/control/stop'' control_stop e req = Next"
    "route POST ''/api/control/restart'' control_restart e req = Next"
    using assms(4) unfolding route_def route_defined_def by presburger+
  show ?thesis
    unfolding app_def app_layers_def dispatch.simps
    by (simp add: pre routes parsers_pass [OF assms(2)] morgan_def helmet_def compression_def
          not_found_handler_def)
qed

theorem unmatched_request_not_found_witness:
  "app sample_env \<lparr>req_method = GET, req_path = ''/no/such/path'', req_body = NoBody\<rparr>
     = \<lparr>status = 404,
        content = Json (JObj [(''error'', JStr ''Not Found''),
                              (''message'',
                               JStr ''The requested resource at /no/such/path was not found'')]),
        delay_ms = 0\<rparr>"
proof -
  let ?r = "\<lparr>req_method = GET, req_path = ''/no/such/path'', req_body = NoBody\<rparr>"
  have m: "req_method ?r \<noteq> OPTIONS"
    by simp
  have b: "\<not> body_rejected ?r"
    by (simp add: body_rejected_def)
  have s: "static_file sample_env (req_path ?r) = None"
    by (simp add: sample_env_def)
  have n: "\<not> route_defined (req_method ?r) (req_path ?r)"
    by code_simp
  show ?thesis
    using unmatched_request_not_found [OF m b s n] by simp
qed

text \<open>
  Two requests that match no route and no static file and are not answered with 404: an
  \<open>OPTIONS\<close> request, which \<open>cors()\<close> answers with 204, and a \<open>POST\<close> with a JSON body that
  does not parse, which the error-handling middleware answers with 500.
\<close>

theorem unmatched_request_counterexample:
  "status (app sample_env \<lparr>req_method = OPTIONS, req_path = ''/no/such/path'',
                            req_body = NoBody\<rparr>) = 204
   \<and> status (app sample_env \<lparr>req_method = POST, req_path = ''/no/such/path'',
                              req_body = JsonBody (Inl malformed_json)\<rparr>) = 500
   \<and> \<not> route_defined OPTIONS ''/no/such/path''
   \<and> \<not> route_defined POST ''/no/such/path''
   \<and> static_file sample_env ''/no/such/path'' = None"
  by code_simp

text \<open>
  C9. The error-handling middleware answers every failure it is given with status 500,
  \<open>error = Something went wrong!\<close> and a message that is the failure's own message unless
  \<open>NODE_ENV\<close> is \<open>production\<close>, in which case it is \<open>Server error\<close>. A failure pending in the
  stack of \<open>index.js\<close> is answered by it. Two environments that agree on the production
  flag give the same response to the same failure, whatever the requests are.
\<close>

theorem error_handler_response:
  "error_handler e err req =
     Done \<lparr>status = 500,
           content = Json (JObj [(''error'', JStr ''Something went wrong!''),
                                 (''message'', JStr (if NODE_ENV e = Some ''production''
                                                     then ''Server error'' else err_message err))]),
           delay_ms = 0\<rparr>
   \<and> dispatch app_layers e (Some err) req =
     \<lparr>status = 500,
      content = Json (JObj [(''error'', JStr ''Something went wrong!''),
                            (''message'', JStr (if NODE_ENV e = Some ''production''
                                                then ''Server error'' else err_message err))]),
      delay_ms = 0\<rparr>
   \<and> ((NODE_ENV e = Some ''production'') = (NODE_ENV e' = Some ''production'')
        \<longrightarrow> error_handler e err req = error_handler e' err req')"
  by (simp add: app_layers_def error_handler_def)

theorem error_handler_response_witness:
  "(NODE_ENV production_env = Some ''production'')
     = (NODE_ENV (production_env\<lparr>obs := sample_readings\<lparr>now := ''later''\<rparr>\<rparr>) = Some ''production'')
   \<and> error_handler production_env malformed_json
        \<lparr>req_method = POST, req_path = ''/api/control/start'',
         req_body = JsonBody (Inl malformed_json)\<rparr>
      = error_handler (production_env\<lparr>obs := sample_readings\<lparr>now := ''later''\<rparr>\<rparr>) malformed_json
          \<lparr>req_method = GET, req_path = ''/'', req_body = NoBody\<rparr>"
  (is "?flag \<and> ?same")
proof -
  have flag: ?flag
    by (simp add: production_env_def)
  with error_handler_response [of production_env malformed_json
      "\<lparr>req_method = POST, req_path = ''/api/control/start'',
        req_body = JsonBody (Inl malformed_json)\<rparr>"
      "production_env\<lparr>obs := sample_readings\<lparr>now := ''later''\<rparr>\<rparr>"
      "\<lparr>req_method = GET, req_path = ''/'', req_body = NoBody\<rparr>"]
  show ?thesis by blast
qed

end
